theory Spec2Isabelle
  imports Complex_Main "HOL-Library.Sublist"
begin

section \<open>Numbers\<close>

text \<open>
  A Python/numpy double is modelled as an exact real, or one of the three special values
  of IEEE 754. Rounding, overflow and the sign of zero are not modelled: a finite result
  is the exact real result, and a zero divisor is read as \<open>+0.0\<close>.
\<close>

datatype fl = Fin real | PInf | NInf | NaN

fun fl_add :: "fl \<Rightarrow> fl \<Rightarrow> fl" where
  "fl_add NaN _ = NaN"
| "fl_add _ NaN = NaN"
| "fl_add (Fin a) (Fin b) = Fin (a + b)"
| "fl_add PInf NInf = NaN"
| "fl_add NInf PInf = NaN"
| "fl_add PInf _ = PInf"
| "fl_add _ PInf = PInf"
| "fl_add NInf _ = NInf"
| "fl_add _ NInf = NInf"

fun fl_neg :: "fl \<Rightarrow> fl" where
  "fl_neg (Fin a) = Fin (- a)"
| "fl_neg PInf = NInf"
| "fl_neg NInf = PInf"
| "fl_neg NaN = NaN"

fun fl_scale :: "real \<Rightarrow> fl \<Rightarrow> fl" where
  "fl_scale a PInf = (if a = 0 then NaN else if 0 < a then PInf else NInf)"
| "fl_scale a NInf = (if a = 0 then NaN else if 0 < a then NInf else PInf)"
| "fl_scale a NaN = NaN"
| "fl_scale a (Fin b) = Fin (a * b)"

fun fl_mul :: "fl \<Rightarrow> fl \<Rightarrow> fl" where
  "fl_mul (Fin a) y = fl_scale a y"
| "fl_mul x (Fin b) = fl_scale b x"
| "fl_mul NaN _ = NaN"
| "fl_mul _ NaN = NaN"
| "fl_mul PInf y = y"
| "fl_mul NInf y = fl_neg y"

fun fl_div :: "fl \<Rightarrow> fl \<Rightarrow> fl" where
  "fl_div NaN _ = NaN"
| "fl_div _ NaN = NaN"
| "fl_div (Fin a) (Fin b) =
     (if b \<noteq> 0 then Fin (a / b)
      else if a = 0 then NaN else if 0 < a then PInf else NInf)"
| "fl_div (Fin a) _ = Fin 0"
| "fl_div PInf (Fin b) = (if 0 \<le> b then PInf else NInf)"
| "fl_div NInf (Fin b) = (if 0 \<le> b then NInf else PInf)"
| "fl_div _ _ = NaN"

text \<open>
  \<open>x ** e\<close> for a finite exponent: the C library's \<open>pow\<close>. A negative base has a
  real power only at an integer exponent. The power is exact here where the double is
  rounded, so \<open>(x powr b) powr (1 / b) = x\<close> holds in the model and need not
  hold in the code: an exact value of a power in the model says nothing about the double.
\<close>

definition odd_integer :: "real \<Rightarrow> bool" where
  "odd_integer e = (e \<in> \<int> \<and> odd \<lfloor>e\<rfloor>)"

fun fl_pow :: "fl \<Rightarrow> real \<Rightarrow> fl" where
  "fl_pow NaN e = (if e = 0 then Fin 1 else NaN)"
| "fl_pow PInf e = (if e = 0 then Fin 1 else if 0 < e then PInf else Fin 0)"
| "fl_pow NInf e =
     (if e = 0 then Fin 1
      else if 0 < e then (if odd_integer e then NInf else PInf)
      else Fin 0)"
| "fl_pow (Fin x) e =
     (if e = 0 then Fin 1
      else if 0 < x then Fin (x powr e)
      else if x = 0 then (if 0 < e then Fin 0 else PInf)
      else if e \<in> \<int> then Fin ((if odd_integer e then - 1 else 1) * ((- x) powr e))
      else NaN)"

definition fl_sum :: "fl list \<Rightarrow> fl" where
  "fl_sum ys = foldl fl_add (Fin 0) ys"

text \<open>\<open>a[np.isnan(a)] = 0\<close>, one entry at a time.\<close>

definition nan_to_zero :: "fl \<Rightarrow> fl" where
  "nan_to_zero y = (if y = NaN then Fin 0 else y)"

section \<open>Path weighting and effective height (transects.py)\<close>

datatype error = NotImplementedError string | ValueError

text \<open>
  Modelled from the spec: \<open>scipy.special.jv(1, v)\<close>, the Bessel function of the first
  kind of order 1, is a library function outside the repository. It is taken as the
  function it approximates, given by its power series.
\<close>

definition jv1 :: "real \<Rightarrow> real" where
  "jv1 v = (\<Sum>m. (- 1) ^ m / (fact m * fact (Suc m)) * (v / 2) ^ (2 * m + 1))"

definition bessel_second :: "real \<Rightarrow> real" where
  "bessel_second x =
     (let bessel_variable = 2.283 * pi * (x - 0.5)
      in if bessel_variable = 0 then 1
         else 2 * jv1 bessel_variable / bessel_variable)"

definition path_weighting :: "real list \<Rightarrow> real list" where
  "path_weighting path_coordinates = map (\<lambda>i. 2.163 * bessel_second i) path_coordinates"

definition stability_dict :: "(string \<times> real) list" where
  "stability_dict = [(''stable'', - 2 / 3), (''unstable'', - 4 / 3)]"

text \<open>
  The result is paired with the lines printed on standard output. An absent name
  (\<open>None\<close>) and the empty string are both false in Python.
\<close>

definition define_stability :: "string option \<Rightarrow> (error + real) \<times> string list" where
  "define_stability stability_name =
     (case stability_name of
        None \<Rightarrow> (Inr 1, [''No height dependency selected.''])
      | Some name \<Rightarrow>
          if name = [] then (Inr 1, [''No height dependency selected.''])
          else (case map_of stability_dict name of
                  Some b_constant \<Rightarrow> (Inr b_constant, [])
                | None \<Rightarrow>
                    (Inl (NotImplementedError
                       (name @ '' is not an implemented stability condition.'')), [])))"

text \<open>
  \<open>scipy.integrate.trapz(y)\<close> with its default \<open>dx = 1.0\<close> and no sample points:
  \<open>(d * (y[1:] + y[:-1]) / 2.0).sum()\<close> with \<open>d = 1.0\<close>.
\<close>

definition trapz :: "fl list \<Rightarrow> fl" where
  "trapz y =
     fl_sum (map (\<lambda>s. fl_div (fl_mul (Fin 1) s) (Fin 2)) (map2 fl_add (tl y) (butlast y)))"

text \<open>
  The heights and the positions are two columns of one transect frame. The elementwise
  product of columns of different lengths raises in numpy (broadcasting of a
  one-element column is outside the transect contract and not modelled).
\<close>

definition weighted_heights :: "real \<Rightarrow> real list \<Rightarrow> real list \<Rightarrow> fl list" where
  "weighted_heights b_value path_heights path_positions =
     map nan_to_zero
       (map2 (\<lambda>h w. fl_mul (fl_pow (Fin h) b_value) (Fin w))
          path_heights (path_weighting path_positions))"

definition compute_effective_z ::
  "real list \<Rightarrow> real list \<Rightarrow> string option \<Rightarrow> (error + fl) \<times> string list" where
  "compute_effective_z path_heights path_positions stability =
     (case define_stability stability of
        (Inl e, out) \<Rightarrow> (Inl e, out)
      | (Inr b_value, out) \<Rightarrow>
          if length path_heights \<noteq> length path_positions then (Inl ValueError, out)
          else
            (Inr (fl_pow
                    (fl_div (trapz (weighted_heights b_value path_heights path_positions))
                            (trapz (map Fin (path_weighting path_positions))))
                    (1 / b_value)),
             out))"

subsection \<open>The effective height as the specification words it\<close>

text \<open>
  The trapezoidal rule over a domain \<open>x\<close> (numpy's \<open>trapz(y, x)\<close>:
  \<open>d = diff(x)\<close>), and the effective height integrated over a given domain: the
  weighted heights \<open>heights[i] ** b * pathWeight(positions[i])\<close> with every NaN
  replaced by 0, and the path weights, are integrated over \<open>x\<close>, and the quotient is
  raised to \<open>1 / b\<close>. The specification takes the positions themselves for \<open>x\<close>.
\<close>

definition trapz_over :: "real list \<Rightarrow> fl list \<Rightarrow> fl" where
  "trapz_over x y =
     fl_sum (map2 (\<lambda>d s. fl_div (fl_mul (Fin d) s) (Fin 2))
               (map2 (\<lambda>a b. a - b) (tl x) (butlast x))
               (map2 fl_add (tl y) (butlast y)))"

definition sample_index :: "nat \<Rightarrow> real list" where
  "sample_index n = map real [0..<n]"

definition effective_height_over ::
  "real list \<Rightarrow> real \<Rightarrow> real list \<Rightarrow> real list \<Rightarrow> fl" where
  "effective_height_over x b heights positions =
     (let weighted = map (\<lambda>i. nan_to_zero
                            (fl_mul (fl_pow (Fin (heights ! i)) b)
                                    (Fin (2.163 * bessel_second (positions ! i)))))
                         [0..<length positions];
          weights = map (\<lambda>i. Fin (2.163 * bessel_second (positions ! i)))
                        [0..<length positions]
      in fl_pow (fl_div (trapz_over x weighted) (trapz_over x weights)) (1 / b))"

subsection \<open>Auxiliary notions for the proofs\<close>

text \<open>
  The kernel \<open>2 J1(v) / v\<close> as a power series in \<open>t = (v / 2)\<^sup>2\<close>, its
  coefficients, and the trapezoidal sums over finite values.
\<close>

definition kernel_series :: "real \<Rightarrow> real" where
  "kernel_series t = (\<Sum>m. (- 1) ^ m * (t ^ m / (fact m * fact (Suc m))))"

definition kernel_coeff :: "real \<Rightarrow> nat \<Rightarrow> real" where
  "kernel_coeff t m = t ^ m / (fact m * fact (Suc m))"

definition trapz_real :: "real list \<Rightarrow> real" where
  "trapz_real y = sum_list (map2 (\<lambda>a b. (a + b) / 2) (tl y) (butlast y))"

definition trapz_over_real :: "real list \<Rightarrow> real list \<Rightarrow> real" where
  "trapz_over_real x y =
     sum_list (map2 (\<lambda>d s. d * s / 2) (map2 (\<lambda>a b. a - b) (tl x) (butlast x))
                 (map2 (\<lambda>a b. a + b) (tl y) (butlast y)))"

section \<open>Profile construction (constructions.py)\<close>

text \<open>
  Modelled from the spec: the constants bundle of \<open>constants.py\<close> (class
  \<open>AtmosConstants\<close>), which is not among the sources. The specification names its
  fields and their signs; the values are parameters.
\<close>

record atmos_constants =
  r_dry :: real
  r_vapour :: real
  g :: real
  cp :: real
  ref_pressure :: real

definition valid_constants :: "atmos_constants \<Rightarrow> bool" where
  "valid_constants c =
     (0 < r_dry c \<and> 0 < r_vapour c \<and> g c < 0 \<and> 0 < cp c \<and> 0 < ref_pressure c)"

text \<open>
  Modelled from the spec: the time-indexed series and level tables that the methods of
  \<open>ProfileConstructor\<close> (module \<open>constructions.py\<close>, not among the sources) take
  and return. A table keeps its temporal index and its columns in order, each column
  labelled by its height; cells are real numbers.
\<close>

record series =
  s_index :: "nat list"
  s_values :: "real list"

record level_table =
  t_index :: "nat list"
  t_columns :: "(real \<times> real list) list"

text \<open>
  Modelled from the spec: \<open>ProfileConstructor.get_air_pressure\<close>, missing from the
  sources: \<open>pressure * exp(-(z_target - z_ref) * |g| / (r_dry * air_temperature))\<close>,
  here for one cell.
\<close>

definition get_air_pressure ::
  "atmos_constants \<Rightarrow> real \<Rightarrow> real \<Rightarrow> real \<Rightarrow> real \<Rightarrow> real" where
  "get_air_pressure c pressure air_temperature z_target z_ref =
     pressure * exp (- (z_target - z_ref) * \<bar>g c\<bar> / (r_dry c * air_temperature))"

text \<open>
  Modelled from the spec: \<open>ProfileConstructor.extrapolate_air_pressure\<close>, missing from
  the sources: \<open>get_air_pressure\<close> for every height level, the columns of the
  temperature table, with reference height 0 and the surface pressure as reference
  pressure. The result keeps the temperature table's index.
\<close>

definition extrapolate_air_pressure ::
  "atmos_constants \<Rightarrow> series \<Rightarrow> level_table \<Rightarrow> level_table" where
  "extrapolate_air_pressure c surface_pressure temperature =
     \<lparr>t_index = t_index temperature,
      t_columns =
        map (\<lambda>(z, col).
               (z, map2 (\<lambda>p T. get_air_pressure c p T z 0) (s_values surface_pressure) col))
          (t_columns temperature)\<rparr>"

text \<open>
  Modelled from the spec: \<open>ProfileConstructor.get_reduced_pressure\<close>, missing from the
  sources: \<open>station_pressure * exp(elevation / (alpha * virtual_temperature))\<close> with
  \<open>alpha = r_dry / |g|\<close>, here for one cell.
\<close>

definition alpha :: "atmos_constants \<Rightarrow> real" where
  "alpha c = r_dry c / \<bar>g c\<bar>"

definition get_reduced_pressure :: "atmos_constants \<Rightarrow> real \<Rightarrow> real \<Rightarrow> real \<Rightarrow> real" where
  "get_reduced_pressure c station_pressure virtual_temperature elevation =
     station_pressure * exp (elevation / (alpha c * virtual_temperature))"

text \<open>
  Modelled from the spec: the backward difference of a column against the previous
  column, divided by the spacing of their height labels (part of
  \<open>ProfileConstructor.get_gradient\<close>, missing from the sources).
\<close>

definition column_difference :: "real \<Rightarrow> real list \<Rightarrow> real \<Rightarrow> real list \<Rightarrow> real list" where
  "column_difference z col z_prev col_prev =
     map2 (\<lambda>y y_prev. (y - y_prev) / (z - z_prev)) col col_prev"

fun backward_columns ::
  "real \<times> real list \<Rightarrow> (real \<times> real list) list \<Rightarrow> (real \<times> real list) list" where
  "backward_columns prev [] = []"
| "backward_columns (z_prev, col_prev) ((z, col) # rest) =
     (z, column_difference z col z_prev col_prev) # backward_columns (z, col) rest"

text \<open>
  Modelled from the spec: the scheme \<open>"backward"\<close> of
  \<open>ProfileConstructor.get_gradient\<close>, missing from the sources: the first column is
  zero, every later column is its backward difference.
\<close>

definition backward_differencing :: "level_table \<Rightarrow> level_table" where
  "backward_differencing data =
     \<lparr>t_index = t_index data,
      t_columns =
        (case t_columns data of
           [] \<Rightarrow> []
         | (z0, col0) # rest \<Rightarrow> (z0, map (\<lambda>_. 0) col0) # backward_columns (z0, col0) rest)\<rparr>"

text \<open>
  Modelled from the spec: the three-point centred difference on unequal steps for an
  interior column. The specification asks for "the standard three-point stencil weighted
  by unequal step sizes" and leaves the formula open; this is the usual one.
\<close>

definition three_point ::
  "real \<Rightarrow> real list \<Rightarrow> real \<Rightarrow> real list \<Rightarrow> real \<Rightarrow> real list \<Rightarrow> real list" where
  "three_point z_prev col_prev z col z_next col_next =
     map (\<lambda>(y_prev, y, y_next).
            let hb = z - z_prev; hf = z_next - z
            in (hb\<^sup>2 * y_next - hf\<^sup>2 * y_prev + (hf\<^sup>2 - hb\<^sup>2) * y) / (hb * hf * (hb + hf)))
       (zip col_prev (zip col col_next))"

fun centred_columns ::
  "real \<times> real list \<Rightarrow> (real \<times> real list) list \<Rightarrow> (real \<times> real list) list" where
  "centred_columns prev [] = []"
| "centred_columns (z_prev, col_prev) [(z, col)] =
     [(z, column_difference z col z_prev col_prev)]"
| "centred_columns (z_prev, col_prev) ((z, col) # (z_next, col_next) # rest) =
     (z, three_point z_prev col_prev z col z_next col_next)
       # centred_columns (z, col) ((z_next, col_next) # rest)"

text \<open>
  Modelled from the spec: \<open>ProfileConstructor.non_uniform_differencing\<close>, missing from
  the sources: the first column is forced to zero, interior columns take the centred
  difference, the last column the backward difference.
\<close>

definition non_uniform_differencing :: "level_table \<Rightarrow> level_table" where
  "non_uniform_differencing dataframe =
     \<lparr>t_index = t_index dataframe,
      t_columns =
        (case t_columns dataframe of
           [] \<Rightarrow> []
         | (z0, col0) # rest \<Rightarrow> (z0, map (\<lambda>_. 0) col0) # centred_columns (z0, col0) rest)\<rparr>"

text \<open>
  Modelled from the spec: \<open>ProfileConstructor.get_gradient\<close>, missing from the
  sources. The message of the error is the one its test expects.
\<close>

definition quoted :: "string \<Rightarrow> string" where
  "quoted s = CHR 0x27 # s @ [CHR 0x27]"

definition gradient_error_message :: "string \<Rightarrow> string" where
  "gradient_error_message method =
     quoted method @ '' is not an implemented differencing scheme. Use ''
       @ quoted ''uneven'' @ '' or '' @ quoted ''backward'' @ ''.''"

definition get_gradient :: "level_table \<Rightarrow> string \<Rightarrow> error + level_table" where
  "get_gradient data method =
     (if method = ''uneven'' then Inr (non_uniform_differencing data)
      else if method = ''backward'' then Inr (backward_differencing data)
      else Inl (NotImplementedError (gradient_error_message method)))"

section \<open>Stability resolution\<close>

lemma define_stability_absent:
  "define_stability None = (Inr 1, [''No height dependency selected.''])"
  "define_stability (Some []) = (Inr 1, [''No height dependency selected.''])"
  by (simp_all add: define_stability_def)

lemma define_stability_stable:
  "define_stability (Some ''stable'') = (Inr (- 2 / 3), [])"
  by (simp add: define_stability_def stability_dict_def)

lemma define_stability_unstable:
  "define_stability (Some ''unstable'') = (Inr (- 4 / 3), [])"
  by (simp add: define_stability_def stability_dict_def)

lemma define_stability_other:
  assumes "name \<noteq> []" "name \<noteq> ''stable''" "name \<noteq> ''unstable''"
  shows "define_stability (Some name) =
    (Inl (NotImplementedError (name @ '' is not an implemented stability condition.'')), [])"
  using assms by (simp add: define_stability_def stability_dict_def)

text \<open>
  C5. The resolver has exactly four outcomes: exponent 1 with the note
  "No height dependency selected." for an absent or empty name, exponent -2/3 for
  "stable", exponent -4/3 for "unstable", and for every other name the error whose
  message starts with that name and says it is not an implemented stability condition.
\<close>

theorem define_stability_outcomes:
  "define_stability s =
     (if s = None \<or> s = Some [] then (Inr 1, [''No height dependency selected.''])
      else if s = Some ''stable'' then (Inr (- 2 / 3), [])
      else if s = Some ''unstable'' then (Inr (- 4 / 3), [])
      else (Inl (NotImplementedError
              (the s @ '' is not an implemented stability condition.'')), []))"
proof (cases s)
  case None
  then show ?thesis by (simp add: define_stability_absent)
next
  case (Some name)
  then show ?thesis
    using define_stability_other [of name]
    by (simp add: define_stability_absent define_stability_stable define_stability_unstable)
qed

section \<open>The Bessel weight\<close>

text \<open>
  C3. The Bessel weight of a position x is 1 when v = 2.283 pi (x - 0.5) is zero and
  2 J1(v) / v otherwise; v is zero exactly at x = 0.5, where the weight is 1.
\<close>

theorem bessel_second_kernel:
  "bessel_second x =
     (if 2.283 * pi * (x - 0.5) = 0 then 1
      else 2 * jv1 (2.283 * pi * (x - 0.5)) / (2.283 * pi * (x - 0.5)))
   \<and> (2.283 * pi * (x - 0.5) = 0) = (x = 0.5)
   \<and> bessel_second 0.5 = 1"
  by (simp add: bessel_second_def Let_def)

lemma bessel_second_half: "bessel_second (1 / 2) = 1"
  by (simp add: bessel_second_def)

section \<open>The Bessel kernel as a power series\<close>

lemma kernel_coeff_le: "\<bar>(- 1) ^ m * (t ^ m / (fact m * fact (Suc m)))\<bar> \<le> inverse (fact m) * \<bar>t\<bar> ^ m" for t :: real
proof -
  have "(1::real) \<le> fact (Suc m)" by (rule fact_ge_1)
  then have "\<bar>t\<bar> ^ m / (fact m * fact (Suc m)) \<le> \<bar>t\<bar> ^ m / (fact m * 1)"
    by (intro divide_left_mono mult_left_mono) (auto simp del: fact_Suc)
  then show ?thesis by (simp add: abs_mult power_abs divide_inverse mult.commute del: fact_Suc)
qed

lemma summable_kernel: "summable (\<lambda>m. (- 1) ^ m * (t ^ m / (fact m * fact (Suc m))))" for t :: real
proof (rule summable_comparison_test')
  show "summable (\<lambda>m. inverse (fact m) * \<bar>t\<bar> ^ m)" by (rule summable_exp)
  show "norm ((- 1) ^ n * (t ^ n / (fact n * fact (Suc n)))) \<le> inverse (fact n) * \<bar>t\<bar> ^ n" if "0 \<le> n" for n
    using kernel_coeff_le [of n t] by simp
qed

lemma jv1_kernel: "jv1 v = (v / 2) * kernel_series ((v / 2)\<^sup>2)"
proof -
  have term_eq: "(- 1) ^ m / (fact m * fact (Suc m)) * (v / 2) ^ (2 * m + 1) =
      (v / 2) * ((- 1) ^ m * (((v / 2)\<^sup>2) ^ m / (fact m * fact (Suc m))))" for m
  proof -
    have "(v / 2) ^ (2 * m + 1) = (v / 2) * ((v / 2)\<^sup>2) ^ m"
      by (simp add: power_mult)
    moreover have "c / F * (w * a) = w * (c * (a / F))" for c F a w :: real
      by simp
    ultimately show ?thesis by (simp only:)
  qed
  have "jv1 v = (\<Sum>m. (v / 2) * ((- 1) ^ m * (((v / 2)\<^sup>2) ^ m / (fact m * fact (Suc m)))))"
    unfolding jv1_def by (simp only: term_eq)
  also have "\<dots> = (v / 2) * kernel_series ((v / 2)\<^sup>2)"
    unfolding kernel_series_def by (rule suminf_mult [OF summable_kernel])
  finally show ?thesis .
qed

lemma kernel_series_0: "kernel_series 0 = 1"
proof -
  have "kernel_series 0 = (\<Sum>m. if m = 0 then 1 else (0::real))"
    unfolding kernel_series_def by (rule arg_cong [where f = suminf]) (auto simp: fun_eq_iff power_0_left)
  also have "\<dots> = 1" by (subst suminf_finite [where N = "{0}"]) auto
  finally show ?thesis .
qed

lemma bessel_second_series: "bessel_second x = kernel_series ((2.283 * pi * (x - 0.5) / 2)\<^sup>2)"
proof (cases "x = 0.5")
  case True
  have "bessel_second 0.5 = kernel_series ((2.283 * pi * (0.5 - 0.5) / 2)\<^sup>2)"
    by (simp add: bessel_second_def kernel_series_0)
  with True show ?thesis by (simp only:)
next
  case False
  then have "2.283 * pi * (x - 0.5) \<noteq> 0" by simp
  then show ?thesis
    unfolding bessel_second_def Let_def by (simp add: jv1_kernel)
qed

lemma jv1_odd: "jv1 (- v) = - jv1 v"
  by (simp add: jv1_kernel)

lemma bessel_second_symmetric: "bessel_second (0.5 + d) = bessel_second (0.5 - d)"
proof -
  have "(2.283 * pi * (0.5 + d - 0.5) / 2)\<^sup>2 = (2.283 * pi * (0.5 - d - 0.5) / 2)\<^sup>2"
    by (simp add: power2_eq_square)
  then show ?thesis by (simp only: bessel_second_series)
qed

text \<open>
  C4. The path weight is symmetric about x = 0.5: the weights of the positions 0.5 + d
  and 0.5 - d are equal, for one position and for a whole list of offsets d (so in
  particular for 0 <= d <= 0.5), because the kernel 2 J1(v) / v is even in v.
\<close>

theorem path_weighting_symmetric:
  "path_weighting (map (\<lambda>d. 0.5 + d) ds) = path_weighting (map (\<lambda>d. 0.5 - d) ds)
   \<and> bessel_second (0.5 + d) = bessel_second (0.5 - d)
   \<and> 2 * jv1 (- v) / (- v) = 2 * jv1 v / v"
proof -
  have sym: "bessel_second (1 / 2 + x) = bessel_second (1 / 2 - x)" for x
    using bessel_second_symmetric [of x] by simp
  show ?thesis by (simp add: path_weighting_def sym jv1_odd)
qed

section \<open>Bounds on the Bessel weight\<close>

lemma alternating_nonneg:
  fixes b :: "nat \<Rightarrow> real"
  assumes sm: "summable (\<lambda>m. (- 1) ^ m * b m)" and dec: "\<And>m. b (Suc m) \<le> b m"
  shows "0 \<le> (\<Sum>m. (- 1) ^ m * b m)"
proof -
  let ?g = "\<lambda>m. (- 1) ^ m * b m"
  have "?g sums suminf ?g" using sm by (rule summable_sums)
  then have grp: "(\<lambda>n. sum ?g {n * 2 ..< n * 2 + 2}) sums suminf ?g"
    by (rule sums_group) simp
  have pair: "sum ?g {n * 2 ..< n * 2 + 2} = b (2 * n) - b (Suc (2 * n))" for n
  proof -
    have "{n * 2 ..< n * 2 + 2} = {2 * n, Suc (2 * n)}" by auto
    then show ?thesis by simp
  qed
  have s1: "(\<lambda>n. b (2 * n) - b (Suc (2 * n))) sums suminf ?g"
    using grp by (simp only: pair)
  have s0: "(\<lambda>n. 0::real) sums 0" by (rule sums_zero)
  have le: "0 \<le> b (2 * n) - b (Suc (2 * n))" for n using dec [of "2 * n"] by simp
  show ?thesis by (rule sums_le [OF le s0 s1])
qed

lemma kernel_coeff_Suc:
  "kernel_coeff t (Suc m) = kernel_coeff t m * (t / (real (Suc m) * real (Suc (Suc m))))"
proof -
  have "fact (Suc m) * fact (Suc (Suc m)) = (fact m * fact (Suc m)) * (real (Suc m) * real (Suc (Suc m)))"
    by (simp only: fact_Suc of_nat_mult) (simp only: mult_ac)
  then show ?thesis
    unfolding kernel_coeff_def by (simp only: power_Suc times_divide_times_eq mult.commute [of t])
qed

lemma kernel_coeff_nonneg: "0 \<le> t \<Longrightarrow> 0 \<le> kernel_coeff t m"
  unfolding kernel_coeff_def by simp

lemma kernel_coeff_decreasing:
  assumes "0 \<le> t" "t \<le> 12" "2 \<le> m"
  shows "kernel_coeff t (Suc m) \<le> kernel_coeff t m"
proof -
  have "3 * 4 \<le> real (Suc m) * real (Suc (Suc m))"
    using assms(3) by (intro mult_mono) auto
  then have "t / (real (Suc m) * real (Suc (Suc m))) \<le> 1" using assms by simp
  then have "kernel_coeff t m * (t / (real (Suc m) * real (Suc (Suc m)))) \<le> kernel_coeff t m * 1"
    using kernel_coeff_nonneg [OF assms(1)] by (intro mult_left_mono)
  then show ?thesis by (simp add: kernel_coeff_Suc)
qed

lemma kernel_series_split:
  "kernel_series t = (\<Sum>i<k. (- 1) ^ i * kernel_coeff t i) + (- 1) ^ k * (\<Sum>m. (- 1) ^ m * kernel_coeff t (m + k))"
proof -
  let ?f = "\<lambda>m. (- 1) ^ m * kernel_coeff t m"
  have sm: "summable ?f" unfolding kernel_coeff_def by (rule summable_kernel)
  have sm': "summable (\<lambda>m. (- 1) ^ m * kernel_coeff t (m + k))"
  proof -
    have "summable (\<lambda>m. (- 1) ^ k * ?f (m + k))"
      using sm by (intro summable_mult summable_ignore_initial_segment)
    moreover have "(- 1) ^ k * ?f (m + k) = (- 1) ^ m * kernel_coeff t (m + k)" for m
      by (simp add: power_add)
    ultimately show ?thesis by simp
  qed
  have "kernel_series t = (\<Sum>m. ?f (m + k)) + (\<Sum>i<k. ?f i)"
    unfolding kernel_series_def kernel_coeff_def [symmetric]
    by (rule suminf_split_initial_segment [OF sm])
  moreover have "?f (m + k) = (- 1) ^ k * ((- 1) ^ m * kernel_coeff t (m + k))" for m
    by (simp only: power_add mult_ac)
  then have "(\<Sum>m. ?f (m + k)) = (\<Sum>m. (- 1) ^ k * ((- 1) ^ m * kernel_coeff t (m + k)))"
    by (simp only:)
  moreover have "\<dots> = (- 1) ^ k * (\<Sum>m. (- 1) ^ m * kernel_coeff t (m + k))"
    by (rule suminf_mult [OF sm'])
  ultimately show ?thesis by simp
qed

lemma kernel_tail_nonneg:
  assumes "0 \<le> t" "t \<le> 12" "2 \<le> k"
  shows "0 \<le> (\<Sum>m. (- 1) ^ m * kernel_coeff t (m + k))"
proof (rule alternating_nonneg)
  have "summable (\<lambda>m. (- 1) ^ k * ((- 1) ^ (m + k) * kernel_coeff t (m + k)))"
    using summable_kernel [of t] unfolding kernel_coeff_def [symmetric]
    by (intro summable_mult summable_ignore_initial_segment)
  moreover have "(- 1) ^ k * ((- 1) ^ (m + k) * kernel_coeff t (m + k)) = (- 1) ^ m * kernel_coeff t (m + k)" for m
    by (simp add: power_add)
  ultimately show "summable (\<lambda>m. (- 1) ^ m * kernel_coeff t (m + k))" by simp
  show "kernel_coeff t (Suc m + k) \<le> kernel_coeff t (m + k)" for m
    using kernel_coeff_decreasing [OF assms(1,2), of "m + k"] assms(3) by simp
qed

lemma kernel_partial_2: "(\<Sum>i<2. (- 1) ^ i * kernel_coeff t i) = 1 - t / 2"
  by (simp add: kernel_coeff_def lessThan_Suc numeral_2_eq_2)

lemma kernel_partial_3: "(\<Sum>i<3. (- 1) ^ i * kernel_coeff t i) = 1 - t / 2 + t\<^sup>2 / 12"
  by (simp add: kernel_coeff_def lessThan_Suc numeral_3_eq_3 power2_eq_square)

lemma kernel_series_lower:
  assumes "0 \<le> t" "t \<le> 12"
  shows "1 - t / 2 \<le> kernel_series t"
proof -
  define T where "T = (\<Sum>m. (- 1) ^ m * kernel_coeff t (m + 2))"
  have "0 \<le> T" unfolding T_def by (rule kernel_tail_nonneg [OF assms]) simp
  moreover have "kernel_series t = 1 - t / 2 + T"
    using kernel_series_split [of t 2] by (simp only: kernel_partial_2 T_def) simp
  ultimately show ?thesis by simp
qed

lemma kernel_series_upper:
  assumes "0 \<le> t" "t \<le> 12"
  shows "kernel_series t \<le> 1 - t / 2 + t\<^sup>2 / 12"
proof -
  define T where "T = (\<Sum>m. (- 1) ^ m * kernel_coeff t (m + 3))"
  have "0 \<le> T" unfolding T_def by (rule kernel_tail_nonneg [OF assms]) simp
  moreover have "kernel_series t = 1 - t / 2 + t\<^sup>2 / 12 - T"
    using kernel_series_split [of t 3] by (simp only: kernel_partial_3 T_def) simp
  ultimately show ?thesis by simp
qed

lemma pi_squared_bounds: "4 \<le> pi\<^sup>2" "pi\<^sup>2 < 16"
proof -
  have "2\<^sup>2 \<le> pi\<^sup>2" by (rule power_mono [OF pi_ge_two]) simp
  then show "4 \<le> pi\<^sup>2" by simp
  have "pi\<^sup>2 < 4\<^sup>2" by (rule power_strict_mono [OF pi_less_4]) simp_all
  then show "pi\<^sup>2 < 16" by simp
qed

lemma bessel_argument_eq:
  "(2.283 * pi * (x - 0.5) / 2)\<^sup>2 = 1.30302225 * (pi\<^sup>2 * (x - 0.5)\<^sup>2)"
proof -
  have "(2.283 * pi * (x - 0.5) / 2)\<^sup>2 = (2.283 / 2)\<^sup>2 * (pi\<^sup>2 * (x - 0.5)\<^sup>2)"
    by (simp only: power_mult_distrib power_divide times_divide_eq_left mult.assoc)
  also have "(2.283 / 2 :: real)\<^sup>2 = 1.30302225" by (simp add: power2_eq_square)
  finally show ?thesis .
qed

lemma bessel_second_ge:
  assumes "0 \<le> x" "x \<le> 1"
  shows "1 - 10.424178 * (x - 0.5)\<^sup>2 \<le> bessel_second x"
proof -
  define u where "u = (x - 0.5)\<^sup>2"
  define t where "t = 1.30302225 * (pi\<^sup>2 * u)"
  have u0: "0 \<le> u" unfolding u_def by simp
  have "\<bar>x - 0.5\<bar> \<le> 0.5" using assms by linarith
  then have "\<bar>x - 0.5\<bar>\<^sup>2 \<le> 0.5\<^sup>2" by (rule power_mono) simp
  then have u1: "u \<le> 0.25" unfolding u_def by (simp add: power2_eq_square)
  have pu: "pi\<^sup>2 * u \<le> 16 * u"
    using pi_squared_bounds(2) u0 by (intro mult_right_mono) simp_all
  have t0: "0 \<le> t" unfolding t_def using u0 by simp
  have "1.30302225 * (pi\<^sup>2 * u) \<le> 1.30302225 * (16 * u)"
    using pu by (intro mult_left_mono) simp_all
  then have t1: "t \<le> 20.848356 * u" unfolding t_def by simp
  have t2: "t \<le> 12" using t1 u1 by simp
  have "1 - t / 2 \<le> kernel_series t" by (rule kernel_series_lower [OF t0 t2])
  moreover have "bessel_second x = kernel_series t"
    unfolding t_def u_def by (simp only: bessel_second_series bessel_argument_eq)
  ultimately show ?thesis using t1 unfolding u_def by simp
qed

lemma bessel_second_quarter_le: "bessel_second (1 / 4) \<le> 17 / 20"
proof -
  define t where "t = 1.30302225 * (pi\<^sup>2 * (1 / 4 - 0.5)\<^sup>2)"
  have teq: "t = 0.081438890625 * pi\<^sup>2" unfolding t_def by (simp add: power2_eq_square)
  have lo: "8 / 25 \<le> t" unfolding teq using pi_squared_bounds(1) by simp
  have hi: "t \<le> 142 / 25" unfolding teq using pi_squared_bounds(2) by simp
  have "(t - 8 / 25) * (t - 142 / 25) \<le> 0"
    using lo hi by (intro mult_nonneg_nonpos) simp_all
  moreover have "(t - 8 / 25) * (t - 142 / 25) = t * t - 6 * t + 1136 / 625"
    by (simp add: field_simps)
  ultimately have "t * t - 6 * t + 1136 / 625 \<le> 0"
    by (simp only:)
  then have "1 - t / 2 + (t * t) / 12 \<le> 17 / 20" by linarith
  then have q: "1 - t / 2 + t\<^sup>2 / 12 \<le> 17 / 20"
    by (simp only: power2_eq_square)
  have "kernel_series t \<le> 1 - t / 2 + t\<^sup>2 / 12"
    using lo hi by (intro kernel_series_upper) simp_all
  moreover have "bessel_second (1 / 4) = kernel_series t"
    unfolding t_def by (simp only: bessel_second_series bessel_argument_eq)
  ultimately show ?thesis using q by linarith
qed

section \<open>Trapezoidal sums\<close>

lemma foldl_fl_add_Fin: "foldl fl_add (Fin a) (map Fin xs) = Fin (a + sum_list xs)"
  by (induction xs arbitrary: a) simp_all

lemma fl_sum_Fin: "fl_sum (map Fin xs) = Fin (sum_list xs)"
  by (simp add: fl_sum_def foldl_fl_add_Fin)

lemma map2_tl_butlast_map:
  "map2 op (tl (map f ys)) (butlast (map f ys)) = map2 (\<lambda>a b. op (f a) (f b)) (tl ys) (butlast ys)"
  by (simp add: map_tl [symmetric] map_butlast [symmetric] zip_map_map split_def)

lemma trapz_Fin: "trapz (map Fin ys) = Fin (trapz_real ys)"
proof -
  have "map (\<lambda>s. fl_div (fl_mul (Fin 1) s) (Fin 2)) (map2 fl_add (tl (map Fin ys)) (butlast (map Fin ys)))
      = map Fin (map2 (\<lambda>a b. (a + b) / 2) (tl ys) (butlast ys))"
    by (simp only: map2_tl_butlast_map) auto
  then show ?thesis unfolding trapz_def trapz_real_def by (simp only: fl_sum_Fin)
qed

lemma sum_list_scale: "sum_list (map ((*) c) xs) = c * sum_list xs" for c :: real
  by (induction xs) (simp_all add: algebra_simps)

lemma trapz_real_scale: "trapz_real (map ((*) c) ys) = c * trapz_real ys"
proof -
  have "map2 (\<lambda>a b. (a + b) / 2) (tl (map ((*) c) ys)) (butlast (map ((*) c) ys))
      = map ((*) c) (map2 (\<lambda>a b. (a + b) / 2) (tl ys) (butlast ys))"
    by (simp only: map2_tl_butlast_map) (auto simp: algebra_simps)
  then have "trapz_real (map ((*) c) ys) = sum_list (map ((*) c) (map2 (\<lambda>a b. (a + b) / 2) (tl ys) (butlast ys)))"
    by (simp only: trapz_real_def)
  also have "\<dots> = c * trapz_real ys"
    by (simp only: sum_list_scale trapz_real_def)
  finally show ?thesis .
qed

lemma trapz_real_3: "trapz_real [y0, y1, y2] = (y1 + y0) / 2 + (y2 + y1) / 2"
  by (simp add: trapz_real_def)

lemma trapz_real_5: "trapz_real [y0, y1, y2, y3, y4] = (y1 + y0) / 2 + (y2 + y1) / 2 + (y3 + y2) / 2 + (y4 + y3) / 2"
  by (simp add: trapz_real_def)

lemma trapz_over_Fin: "trapz_over x (map Fin ys) = Fin (trapz_over_real x ys)"
proof -
  have "map2 fl_add (tl (map Fin ys)) (butlast (map Fin ys)) = map Fin (map2 (\<lambda>a b. a + b) (tl ys) (butlast ys))"
    by (simp only: map2_tl_butlast_map) auto
  moreover have "map2 (\<lambda>d s. fl_div (fl_mul (Fin d) s) (Fin 2)) ds (map Fin ss)
      = map Fin (map2 (\<lambda>d s. d * s / 2) ds ss)" for ds ss
    by (simp add: zip_map2 split_def)
  ultimately show ?thesis
    unfolding trapz_over_def trapz_over_real_def by (simp only: fl_sum_Fin)
qed

lemma trapz_over_real_3:
  "trapz_over_real [x0, x1, x2] [y0, y1, y2] = (x1 - x0) * (y1 + y0) / 2 + (x2 - x1) * (y2 + y1) / 2"
  by (simp add: trapz_over_real_def)

lemma diff_sample_index:
  "map2 (\<lambda>a b. a - b) (tl (sample_index n)) (butlast (sample_index n)) = replicate (n - 1) 1"
  by (simp add: list_eq_iff_nth_eq sample_index_def nth_tl nth_butlast)

lemma trapz_over_sample_index:
  assumes "length y = n"
  shows "trapz_over (sample_index n) y = trapz y"
proof -
  have len: "length (map2 fl_add (tl y) (butlast y)) = n - 1" using assms by simp
  have "map2 (\<lambda>d s. fl_div (fl_mul (Fin d) s) (Fin 2)) (replicate (n - 1) 1) ss
      = map (\<lambda>s. fl_div (fl_mul (Fin 1) s) (Fin 2)) ss" if "length ss = n - 1" for ss
    using that by (simp add: list_eq_iff_nth_eq)
  from this [OF len] show ?thesis
    unfolding trapz_over_def trapz_def diff_sample_index by (simp only:)
qed

section \<open>The effective height\<close>

lemma odd_integer_1: "odd_integer 1"
  by (simp add: odd_integer_def)

lemma fl_pow_one: "fl_pow x 1 = x"
  by (cases x) (simp_all add: odd_integer_1)

lemma fl_div_Fin: "d \<noteq> 0 \<Longrightarrow> fl_div (Fin n) (Fin d) = Fin (n / d)"
  by simp

lemma not_integer_exponents: "(- 4 / 3 :: real) \<notin> \<int>" "(- 2 / 3 :: real) \<notin> \<int>"
proof -
  have "frac (- 4 / 3 :: real) \<noteq> 0" by (simp add: frac_def)
  then show "(- 4 / 3 :: real) \<notin> \<int>" by (simp only: frac_eq_0_iff not_False_eq_True)
  have "frac (- 2 / 3 :: real) \<noteq> 0" by (simp add: frac_def)
  then show "(- 2 / 3 :: real) \<notin> \<int>" by (simp only: frac_eq_0_iff not_False_eq_True)
qed

text \<open>
  Degenerate heights under the exponent of the unstable regime: a zero height gives an
  infinite weighted height, which is kept; a negative height gives NaN, which is replaced
  by 0.
\<close>

lemma weighted_heights_degenerate:
  "weighted_heights (- 4 / 3) [0, - 1, 8] [0.5, 0.5, 0.5]
     = [PInf, Fin 0, Fin (8 powr (- 4 / 3) * 2.163)]"
  using not_integer_exponents(1)
  by (simp add: weighted_heights_def path_weighting_def bessel_second_half nan_to_zero_def)

lemma weighted_heights_constant:
  assumes "0 < h" "b \<noteq> 0"
  shows "weighted_heights b (replicate (length ps) h) ps
       = map Fin (map (\<lambda>w. h powr b * w) (path_weighting ps))"
proof -
  have "map2 (\<lambda>h w. fl_mul (fl_pow (Fin h) b) (Fin w)) (replicate (length ps) h) ws
      = map (\<lambda>w. Fin (h powr b * w)) ws" if "length ws = length ps" for ws
    using that assms by (simp add: map2_map_map zip_replicate1 map_equality_iff list_eq_iff_nth_eq)
  then show ?thesis unfolding weighted_heights_def by (simp add: path_weighting_def nan_to_zero_def)
qed

lemma constant_height_effective:
  assumes h: "0 < h" and st: "define_stability s = (Inr b, out)" and b: "b \<noteq> 0"
    and w: "trapz_real (path_weighting ps) \<noteq> 0"
  shows "compute_effective_z (replicate (length ps) h) ps s = (Inr (Fin h), out)"
proof -
  let ?W = "trapz_real (path_weighting ps)"
  have "trapz (weighted_heights b (replicate (length ps) h) ps) = Fin (h powr b * ?W)"
    by (simp only: weighted_heights_constant [OF h b] trapz_Fin trapz_real_scale)
  moreover have "trapz (map Fin (path_weighting ps)) = Fin ?W" by (rule trapz_Fin)
  moreover have "fl_div (Fin (h powr b * ?W)) (Fin ?W) = Fin (h powr b)" using w by simp
  moreover have "fl_pow (Fin (h powr b)) (1 / b) = Fin h"
    using h b by (simp add: powr_powr)
  ultimately show ?thesis by (simp add: compute_effective_z_def st)
qed

lemma roundtrip_weights_positive:
  "0 < trapz_real (path_weighting [0, 0.25, 0.5, 0.75, 1])"
proof -
  have b0: "- 1.61 \<le> bessel_second 0" using bessel_second_ge [of 0] by (simp add: power2_eq_square)
  have b1: "0.34 \<le> bessel_second (1 / 4)" using bessel_second_ge [of "1 / 4"] by (simp add: power2_eq_square)
  have b3: "0.34 \<le> bessel_second (3 / 4)" using bessel_second_ge [of "3 / 4"] by (simp add: power2_eq_square)
  have b4: "- 1.61 \<le> bessel_second 1" using bessel_second_ge [of 1] by (simp add: power2_eq_square)
  have "trapz_real (path_weighting [0, 0.25, 0.5, 0.75, 1]) =
    2.163 * (bessel_second 0 / 2 + bessel_second (1 / 4) + 1 + bessel_second (3 / 4) + bessel_second 1 / 2)"
    by (simp add: path_weighting_def trapz_real_5 bessel_second_half field_simps)
  then show ?thesis using b0 b1 b3 b4 by simp
qed

text \<open>
  In the exact arithmetic of this model, the effective height of a transect of constant
  positive height is that height: for five points uniformly spaced in [0, 1], height 10
  and stability "unstable" (b = -4/3) it is 10, and \<open>constant_height_effective\<close> is
  the general fact. This is a statement about the model only. The doubles of the code
  round every product, quotient and power, and the value the code returns on this
  transect is not determined by these definitions.
\<close>

lemma constant_height_exact_arithmetic:
  "compute_effective_z [10, 10, 10, 10, 10] [0, 0.25, 0.5, 0.75, 1] (Some ''unstable'')
     = (Inr (Fin 10), [])"
proof -
  let ?ps = "[0, 0.25, 0.5, 0.75, 1] :: real list"
  have w: "trapz_real (path_weighting ?ps) \<noteq> 0"
    using roundtrip_weights_positive by simp
  have "compute_effective_z (replicate (length ?ps) 10) ?ps (Some ''unstable'') = (Inr (Fin 10), [])"
    by (rule constant_height_effective [OF _ define_stability_unstable _ w]) simp_all
  moreover have "replicate (length ?ps) (10::real) = [10, 10, 10, 10, 10]"
    by (simp add: numeral_eq_Suc)
  ultimately show ?thesis by simp
qed

lemma weighted_heights_nth:
  assumes "length hs = length ps"
  shows "weighted_heights b hs ps =
     map (\<lambda>i. nan_to_zero (fl_mul (fl_pow (Fin (hs ! i)) b) (Fin (2.163 * bessel_second (ps ! i)))))
       [0..<length ps]"
proof (rule nth_equalityI)
  show "length (weighted_heights b hs ps) = length (map (\<lambda>i. nan_to_zero (fl_mul (fl_pow (Fin (hs ! i)) b) (Fin (2.163 * bessel_second (ps ! i))))) [0..<length ps])"
    using assms by (simp add: weighted_heights_def path_weighting_def)
next
  fix i assume "i < length (weighted_heights b hs ps)"
  then have "i < length ps" "i < length hs"
    using assms by (simp_all add: weighted_heights_def path_weighting_def)
  then show "weighted_heights b hs ps ! i = map (\<lambda>i. nan_to_zero (fl_mul (fl_pow (Fin (hs ! i)) b) (Fin (2.163 * bessel_second (ps ! i))))) [0..<length ps] ! i"
    by (simp add: weighted_heights_def path_weighting_def nan_to_zero_def del: fl_pow.simps fl_mul.simps)
qed

lemma path_weighting_nth:
  "map Fin (path_weighting ps) = map (\<lambda>i. Fin (2.163 * bessel_second (ps ! i))) [0..<length ps]"
proof -
  have "map (\<lambda>i. Fin (2.163 * bessel_second (ps ! i))) [0..<length ps]
      = map (\<lambda>x. Fin (2.163 * bessel_second x)) (map (\<lambda>i. ps ! i) [0..<length ps])"
    by (simp only: map_map comp_def)
  also have "\<dots> = map Fin (path_weighting ps)"
    by (simp only: map_nth path_weighting_def map_map comp_def)
  finally show ?thesis by (rule sym)
qed

text \<open>
  C1, as the code has it. For every transect (heights and positions of one length) and
  every recognized stability name, with exponent b, the effective height is computed from
  weighted[i] = heights[i]^b * pathWeight(positions[i]), every NaN entry replaced by 0;
  weighted and the path weights are integrated by the trapezoidal rule over the sample
  index 0, 1, 2, ... with unit spacing (not over the positions), and the result is the
  quotient of the two integrals raised to 1/b.
\<close>

theorem compute_effective_z_unit_spacing:
  assumes st: "define_stability s = (Inr b, out)" and len: "length hs = length ps"
  shows "compute_effective_z hs ps s =
     (Inr (effective_height_over (sample_index (length ps)) b hs ps), out)"
proof -
  have l1: "length (weighted_heights b hs ps) = length ps"
    using len by (simp add: weighted_heights_def path_weighting_def)
  have l2: "length (map Fin (path_weighting ps)) = length ps"
    by (simp add: path_weighting_def)
  have "effective_height_over (sample_index (length ps)) b hs ps =
      fl_pow (fl_div (trapz (weighted_heights b hs ps)) (trapz (map Fin (path_weighting ps)))) (1 / b)"
    unfolding effective_height_over_def Let_def
    by (simp only: weighted_heights_nth [OF len, symmetric] path_weighting_nth [symmetric]
        trapz_over_sample_index [OF l1] trapz_over_sample_index [OF l2])
  then show ?thesis
    unfolding compute_effective_z_def by (simp only: st len) simp
qed

theorem compute_effective_z_unit_spacing_witness:
  "define_stability (Some ''stable'') = (Inr (- 2 / 3), [])
   \<and> length [12, 15, 11 :: real] = length [0.25, 0.5, 0.6 :: real]
   \<and> compute_effective_z [12, 15, 11] [0.25, 0.5, 0.6] (Some ''stable'') =
       (Inr (effective_height_over (sample_index (length [0.25, 0.5, 0.6 :: real])) (- 2 / 3)
              [12, 15, 11] [0.25, 0.5, 0.6]), [])"
  using compute_effective_z_unit_spacing [of "Some ''stable''" "- 2 / 3" "[]" "[12, 15, 11]" "[0.25, 0.5, 0.6]"]
    define_stability_stable
  by simp

lemma effective_height_over_unfold:
  assumes len: "length hs = length ps"
  shows "effective_height_over x b hs ps =
     fl_pow (fl_div (trapz_over x (weighted_heights b hs ps))
                    (trapz_over x (map Fin (path_weighting ps)))) (1 / b)"
  unfolding effective_height_over_def Let_def
  by (simp only: weighted_heights_nth [OF len, symmetric] path_weighting_nth [symmetric])

lemma weighted_heights_3:
  assumes "0 < h0" "0 < h1" "0 < h2" "path_weighting ps = [w0, w1, w2]"
  shows "weighted_heights 1 [h0, h1, h2] ps = map Fin [h0 * w0, h1 * w1, h2 * w2]"
  using assms by (simp add: weighted_heights_def nan_to_zero_def)

lemma ratio_differs:
  fixes A A' C :: real
  assumes "0 < A" "A < A'" "0 < C"
  shows "((20 * C + 10 * A) / 2 + (10 * A' + 20 * C) / 2) / ((C + A) / 2 + (A' + C) / 2)
      \<noteq> ((1 / 4) * (20 * C + 10 * A) / 2 + (1 / 10) * (10 * A' + 20 * C) / 2)
          / ((1 / 4) * (C + A) / 2 + (1 / 10) * (A' + C) / 2)"
proof
  let ?N1 = "(20 * C + 10 * A) / 2 + (10 * A' + 20 * C) / 2"
  let ?D1 = "(C + A) / 2 + (A' + C) / 2"
  let ?N2 = "(1 / 4) * (20 * C + 10 * A) / 2 + (1 / 10) * (10 * A' + 20 * C) / 2"
  let ?D2 = "(1 / 4) * (C + A) / 2 + (1 / 10) * (A' + C) / 2"
  assume eq: "?N1 / ?D1 = ?N2 / ?D2"
  have "0 < C + A" "0 < A' + C" using assms by simp_all
  then have "0 < ?D1" and "0 < ?D2" by (simp_all add: add_pos_pos)
  then have d1: "?D1 \<noteq> 0" and d2: "?D2 \<noteq> 0" by simp_all
  have "?N1 * ?D2 = ?N2 * ?D1" by (rule frac_eq_eq [THEN iffD1, OF d1 d2 eq])
  moreover have "?N1 * ?D2 - ?N2 * ?D1 = (3 / 8) * (C * (A - A'))"
    by (simp add: field_simps)
  ultimately have "C * (A - A') = 0" by simp
  then show False using assms by simp
qed

text \<open>
  C1 as stated fails: integrating over the position domain gives another value than the
  code's on the transect with heights 10, 20, 10 at the positions 0.25, 0.5, 0.6 and no
  height dependency.
\<close>

theorem effective_height_position_domain_counterexample:
  "compute_effective_z [10, 20, 10] [0.25, 0.5, 0.6] None \<noteq>
     (Inr (effective_height_over [0.25, 0.5, 0.6] 1 [10, 20, 10] [0.25, 0.5, 0.6]),
      [''No height dependency selected.''])"
proof -
  define A where "A = 2.163 * bessel_second (1 / 4)"
  define A' where "A' = 2.163 * bessel_second (3 / 5)"
  define C :: real where "C = 2.163"
  let ?ps = "[1 / 4, 1 / 2, 3 / 5] :: real list"
  let ?hs = "[10, 20, 10] :: real list"
  let ?N1 = "(20 * C + 10 * A) / 2 + (10 * A' + 20 * C) / 2"
  let ?D1 = "(C + A) / 2 + (A' + C) / 2"
  let ?N2 = "(1 / 4) * (20 * C + 10 * A) / 2 + (1 / 10) * (10 * A' + 20 * C) / 2"
  let ?D2 = "(1 / 4) * (C + A) / 2 + (1 / 10) * (A' + C) / 2"
  have lo: "17 / 50 \<le> bessel_second (1 / 4)"
    using bessel_second_ge [of "1 / 4"] by (simp add: power2_eq_square)
  have hi: "bessel_second (1 / 4) \<le> 17 / 20" by (rule bessel_second_quarter_le)
  have lo': "22 / 25 \<le> bessel_second (3 / 5)"
    using bessel_second_ge [of "3 / 5"] by (simp add: power2_eq_square)
  have A0: "0 < A" unfolding A_def using lo by simp
  have AA': "A < A'" unfolding A_def A'_def using hi lo' by simp
  have C0: "0 < C" unfolding C_def by simp
  have pw: "path_weighting ?ps = [A, C, A']"
    by (simp add: path_weighting_def bessel_second_half A_def A'_def C_def)
  have wh: "weighted_heights 1 ?hs ?ps = map Fin [10 * A, 20 * C, 10 * A']"
    by (rule weighted_heights_3 [OF _ _ _ pw]) simp_all
  have "0 < C + A" "0 < A' + C" using A0 AA' C0 by simp_all
  then have "0 < ?D1" "0 < ?D2" by (simp_all add: add_pos_pos)
  then have d1: "?D1 \<noteq> 0" and d2: "?D2 \<noteq> 0" by simp_all
  have code: "compute_effective_z ?hs ?ps None = (Inr (Fin (?N1 / ?D1)), [''No height dependency selected.''])"
    unfolding compute_effective_z_def
    by (simp only: define_stability_absent wh pw trapz_Fin trapz_real_3 fl_div_Fin [OF d1]
        fl_pow_one prod.case sum.case list.size div_by_1 if_False simp_thms)
  have xs: "(1 / 2 - 1 / 4 :: real) = 1 / 4" "(3 / 5 - 1 / 2 :: real) = 1 / 10" by simp_all
  have spec: "effective_height_over ?ps 1 ?hs ?ps = Fin (?N2 / ?D2)"
    by (simp only: effective_height_over_unfold list.size wh pw trapz_over_Fin trapz_over_real_3 xs
        fl_div_Fin [OF d2] div_by_1 fl_pow_one)
  have "?N1 / ?D1 \<noteq> ?N2 / ?D2" by (rule ratio_differs [OF A0 AA' C0])
  then have "compute_effective_z ?hs ?ps None \<noteq>
     (Inr (effective_height_over ?ps 1 ?hs ?ps), [''No height dependency selected.''])"
    by (simp only: code spec) simp
  then show ?thesis by simp
qed

lemma path_weighting_length: "length (path_weighting ps) = length ps"
  by (simp add: path_weighting_def)

lemma compute_effective_z_weights_only:
  assumes "path_weighting p = path_weighting p'"
  shows "compute_effective_z hs p s = compute_effective_z hs p' s"
proof -
  have "length p = length p'"
    using arg_cong [OF assms, of length] by (simp only: path_weighting_length)
  then show ?thesis
    unfolding compute_effective_z_def weighted_heights_def by (simp only: assms)
qed

text \<open>
  C10. The effective height depends on the positions only through their path weights:
  two position series with the same path weights (hence of the same length) give the same
  result for the same heights and stability; and the trapezoidal rule of the code is the
  rule over the sample index with unit spacing.
\<close>

theorem positions_enter_through_weights_only:
  assumes "path_weighting p = path_weighting p'"
  shows "compute_effective_z hs p s = compute_effective_z hs p' s
       \<and> trapz y = trapz_over (sample_index (length y)) y"
  using compute_effective_z_weights_only [OF assms] trapz_over_sample_index [of y "length y"]
  by simp

theorem positions_enter_through_weights_only_witness:
  "path_weighting [0.25, 0.5, 0.6] = path_weighting [0.75, 0.5, 0.4]
   \<and> compute_effective_z [10, 20, 10] [0.25, 0.5, 0.6] None
       = compute_effective_z [10, 20, 10] [0.75, 0.5, 0.4] None
   \<and> trapz [Fin 1, Fin 2] = trapz_over (sample_index (length [Fin 1, Fin 2])) [Fin 1, Fin 2]"
proof -
  have a: "bessel_second (0.5 + 0.25) = bessel_second (0.5 - 0.25)"
    and b: "bessel_second (0.5 + 0.1) = bessel_second (0.5 - 0.1)"
    by (rule bessel_second_symmetric)+
  have pw: "path_weighting [0.25, 0.5, 0.6] = path_weighting [0.75, 0.5, 0.4]"
    using a b by (simp add: path_weighting_def)
  from positions_enter_through_weights_only [OF pw, of "[10, 20, 10]" None "[Fin 1, Fin 2]"] pw
  show ?thesis by simp
qed

section \<open>Gradients\<close>

lemma sublist_quoted: "sublist s (quoted s)"
  unfolding quoted_def sublist_def by (intro exI [of _ "[CHR 0x27]"] exI [of _ "[CHR 0x27]"]) simp

lemma gradient_error_message_names:
  "sublist method (gradient_error_message method)"
  "sublist ''uneven'' (gradient_error_message method)"
  "sublist ''backward'' (gradient_error_message method)"
proof -
  show "sublist method (gradient_error_message method)"
    unfolding gradient_error_message_def quoted_def sublist_def
    by (rule exI [of _ "[CHR 0x27]"], rule exI) simp
  show "sublist ''uneven'' (gradient_error_message method)"
    unfolding gradient_error_message_def quoted_def sublist_def
    by (rule exI [of _ "CHR 0x27 # method @ [CHR 0x27] @ '' is not an implemented differencing scheme. Use '' @ [CHR 0x27]"], rule exI) simp
  show "sublist ''backward'' (gradient_error_message method)"
    unfolding gradient_error_message_def quoted_def sublist_def
    by (rule exI [of _ "CHR 0x27 # method @ [CHR 0x27] @ '' is not an implemented differencing scheme. Use '' @ CHR 0x27 # ''uneven'' @ [CHR 0x27] @ '' or '' @ [CHR 0x27]"], rule exI) simp
qed

text \<open>
  C6. For every method name other than "uneven" and "backward", the gradient fails with
  the error whose message contains the invalid name and names the allowed set,
  \<open>uneven\<close> and \<open>backward\<close>.
\<close>
theorem get_gradient_unimplemented:
  assumes "method \<noteq> ''uneven''" "method \<noteq> ''backward''"
  shows "get_gradient data method = Inl (NotImplementedError (gradient_error_message method))
       \<and> sublist method (gradient_error_message method)
       \<and> sublist ''uneven'' (gradient_error_message method)
       \<and> sublist ''backward'' (gradient_error_message method)"
  using assms by (simp add: get_gradient_def gradient_error_message_names)

theorem get_gradient_unimplemented_witness:
  "''missing scheme'' \<noteq> ''uneven'' \<and> ''missing scheme'' \<noteq> ''backward''
   \<and> get_gradient \<lparr>t_index = [0], t_columns = [(0, [1]), (10, [2])]\<rparr> ''missing scheme''
       = Inl (NotImplementedError
           (CHR 0x27 # ''missing scheme'' @ CHR 0x27 # '' is not an implemented differencing scheme. Use ''
              @ CHR 0x27 # ''uneven'' @ CHR 0x27 # '' or '' @ CHR 0x27 # ''backward'' @ CHR 0x27 # ''.''))"
  using get_gradient_unimplemented [of "''missing scheme''" "\<lparr>t_index = [0], t_columns = [(0, [1]), (10, [2])]\<rparr>"]
  by (simp add: gradient_error_message_def quoted_def)

lemma backward_columns_length: "length (backward_columns prev rest) = length rest"
  by (induction prev rest rule: backward_columns.induct) simp_all

lemma centred_columns_length: "length (centred_columns prev rest) = length rest"
  by (induction prev rest rule: centred_columns.induct) simp_all

lemma backward_columns_nth:
  "i < length rest \<Longrightarrow>
   backward_columns prev rest ! i =
     (fst (rest ! i),
      column_difference (fst (rest ! i)) (snd (rest ! i))
        (fst ((prev # rest) ! i)) (snd ((prev # rest) ! i)))"
proof (induction prev rest arbitrary: i rule: backward_columns.induct)
  case (1 prev)
  then show ?case by simp
next
  case (2 z_prev col_prev z col rest)
  show ?case
  proof (cases i)
    case 0
    then show ?thesis by simp
  next
    case (Suc j)
    then have "j < length rest" using "2.prems" by simp
    from "2.IH" [OF this] Suc show ?thesis by simp
  qed
qed

lemma backward_columns_Nil_iff: "backward_columns prev rest = [] \<longleftrightarrow> rest = []"
  using backward_columns_length [of prev rest] by (simp only: length_0_conv [symmetric])

lemma centred_columns_Nil_iff: "centred_columns prev rest = [] \<longleftrightarrow> rest = []"
  using centred_columns_length [of prev rest] by (simp only: length_0_conv [symmetric])

lemma centred_columns_last:
  "rest \<noteq> [] \<Longrightarrow> last (centred_columns prev rest) = last (backward_columns prev rest)"
  by (induction prev rest rule: centred_columns.induct)
     (simp_all add: backward_columns_Nil_iff centred_columns_Nil_iff)

lemma backward_differencing_columns:
  assumes "t_columns data = first # rest"
  shows "t_columns (backward_differencing data) =
     (fst first, map (\<lambda>_. 0) (snd first)) # backward_columns first rest"
  using assms by (cases first) (simp add: backward_differencing_def)

lemma non_uniform_differencing_columns:
  assumes "t_columns data = first # rest"
  shows "t_columns (non_uniform_differencing data) =
     (fst first, map (\<lambda>_. 0) (snd first)) # centred_columns first rest"
  using assms by (cases first) (simp add: non_uniform_differencing_def)

text \<open>
  C7. For a level table with at least one column, the scheme "backward" returns a table
  whose first column is zero in every row and whose every later column is the difference
  from the previous column divided by the spacing of their height labels; the scheme
  "uneven" returns a table whose first column is zero as well and whose last column, when
  there are at least two columns, is the same backward difference.
\<close>
theorem get_gradient_boundaries:
  assumes cols: "t_columns data = cs" and ne: "cs \<noteq> []"
  shows "\<exists>gb gu.
      get_gradient data ''backward'' = Inr gb \<and> get_gradient data ''uneven'' = Inr gu
    \<and> length (t_columns gb) = length cs \<and> length (t_columns gu) = length cs
    \<and> t_columns gb ! 0 = (fst (cs ! 0), replicate (length (snd (cs ! 0))) 0)
    \<and> (\<forall>i. 0 < i \<and> i < length cs \<longrightarrow>
          t_columns gb ! i =
            (fst (cs ! i),
             map2 (\<lambda>y y_prev. (y - y_prev) / (fst (cs ! i) - fst (cs ! (i - 1))))
               (snd (cs ! i)) (snd (cs ! (i - 1)))))
    \<and> t_columns gu ! 0 = (fst (cs ! 0), replicate (length (snd (cs ! 0))) 0)
    \<and> (2 \<le> length cs \<longrightarrow>
          t_columns gu ! (length cs - 1) = t_columns gb ! (length cs - 1))"
proof -
  obtain first rest where cs: "cs = first # rest" using ne by (cases cs) auto
  have tc: "t_columns data = first # rest" using cols cs by simp
  let ?gb = "backward_differencing data" and ?gu = "non_uniform_differencing data"
  have gb: "t_columns ?gb = (fst first, map (\<lambda>_. 0) (snd first)) # backward_columns first rest"
    by (rule backward_differencing_columns [OF tc])
  have gu: "t_columns ?gu = (fst first, map (\<lambda>_. 0) (snd first)) # centred_columns first rest"
    by (rule non_uniform_differencing_columns [OF tc])
  have zeros: "map (\<lambda>_. 0 :: real) xs = replicate (length xs) 0" for xs :: "real list"
    by (simp add: map_replicate_const)
  have later: "t_columns ?gb ! i =
      (fst (cs ! i),
       map2 (\<lambda>y y_prev. (y - y_prev) / (fst (cs ! i) - fst (cs ! (i - 1))))
         (snd (cs ! i)) (snd (cs ! (i - 1))))" if pos: "0 < i" and lt: "i < length cs" for i
  proof -
    obtain j where j: "i = Suc j" using pos by (cases i) auto
    then have "j < length rest" using lt cs by simp
    from backward_columns_nth [OF this, of first] show ?thesis
      by (simp add: gb cs j column_difference_def)
  qed
  have lastcol: "t_columns ?gu ! (length cs - 1) = t_columns ?gb ! (length cs - 1)"
    if two: "2 \<le> length cs"
  proof -
    have r: "rest \<noteq> []" using two cs by auto
    then have n: "length cs - 1 = Suc (length rest - 1)" using cs by (cases rest) auto
    have c: "centred_columns first rest ! (length rest - 1) = last (centred_columns first rest)"
      using r by (simp add: last_conv_nth centred_columns_Nil_iff centred_columns_length)
    have b: "backward_columns first rest ! (length rest - 1) = last (backward_columns first rest)"
      using r by (simp add: last_conv_nth backward_columns_Nil_iff backward_columns_length)
    show ?thesis
      by (simp only: gb gu n nth_Cons_Suc c b centred_columns_last [OF r])
  qed
  have g1: "get_gradient data ''backward'' = Inr ?gb" by (simp add: get_gradient_def)
  have g2: "get_gradient data ''uneven'' = Inr ?gu" by (simp add: get_gradient_def)
  have l1: "length (t_columns ?gb) = length cs" by (simp add: gb cs backward_columns_length)
  have l2: "length (t_columns ?gu) = length cs" by (simp add: gu cs centred_columns_length)
  have z1: "t_columns ?gb ! 0 = (fst (cs ! 0), replicate (length (snd (cs ! 0))) 0)"
    by (simp add: gb cs zeros)
  have z2: "t_columns ?gu ! 0 = (fst (cs ! 0), replicate (length (snd (cs ! 0))) 0)"
    by (simp add: gu cs zeros)
  show ?thesis
    apply (rule exI [of _ ?gb])
    apply (rule exI [of _ ?gu])
    apply (intro conjI allI impI)
           apply (rule g1)
          apply (rule g2)
         apply (rule l1)
        apply (rule l2)
       apply (rule z1)
      apply (erule conjE)
      apply (erule (1) later)
     apply (rule z2)
    apply (erule lastcol)
    done
qed

theorem get_gradient_boundaries_witness:
  "t_columns \<lparr>t_index = [0, 1], t_columns = [(0, [290, 291]), (10, [289, 290]), (30, [288, 288])]\<rparr>
     = [(0, [290, 291]), (10, [289, 290]), (30, [288, 288])]
   \<and> [(0, [290, 291]), (10, [289, 290]), (30, [288, 288 :: real])] \<noteq> ([] :: (real \<times> real list) list)
   \<and> get_gradient \<lparr>t_index = [0, 1], t_columns = [(0, [290, 291]), (10, [289, 290]), (30, [288, 288])]\<rparr> ''backward''
       = Inr \<lparr>t_index = [0, 1], t_columns = [(0, [0, 0]), (10, [- 1 / 10, - 1 / 10]), (30, [- 1 / 20, - 1 / 10])]\<rparr>
   \<and> t_columns (non_uniform_differencing
         \<lparr>t_index = [0, 1], t_columns = [(0, [290, 291]), (10, [289, 290]), (30, [288, 288])]\<rparr>) ! 2
       = (30, [- 1 / 20, - 1 / 10])"
proof -
  let ?cs = "[(0, [290, 291]), (10, [289, 290]), (30, [288, 288])] :: (real \<times> real list) list"
  let ?d = "\<lparr>t_index = [0, 1], t_columns = ?cs\<rparr>"
  have h1: "t_columns ?d = ?cs" by simp
  have h2: "?cs \<noteq> []" by simp
  from get_gradient_boundaries [OF h1 h2]
  obtain gb gu where gb: "get_gradient ?d ''backward'' = Inr gb"
    and gu: "get_gradient ?d ''uneven'' = Inr gu"
    and lastcol: "2 \<le> length ?cs \<longrightarrow> t_columns gu ! (length ?cs - 1) = t_columns gb ! (length ?cs - 1)"
    by blast
  have b: "get_gradient ?d ''backward'' =
      Inr \<lparr>t_index = [0, 1], t_columns = [(0, [0, 0]), (10, [- 1 / 10, - 1 / 10]), (30, [- 1 / 20, - 1 / 10])]\<rparr>"
    by (simp add: get_gradient_def backward_differencing_def column_difference_def)
  have "gu = non_uniform_differencing ?d" using gu by (simp add: get_gradient_def)
  moreover have "gb = \<lparr>t_index = [0, 1], t_columns = [(0, [0, 0]), (10, [- 1 / 10, - 1 / 10]), (30, [- 1 / 20, - 1 / 10])]\<rparr>"
    using gb b by simp
  ultimately have "t_columns (non_uniform_differencing ?d) ! 2 = (30, [- 1 / 20, - 1 / 10])"
    using lastcol by (simp add: numeral_2_eq_2)
  with h1 h2 b show ?thesis by (intro conjI)
qed

section \<open>Pressure\<close>

lemma get_air_pressure_reference: "get_air_pressure c p T 0 0 = p"
  by (simp add: get_air_pressure_def)

lemma get_air_pressure_less:
  assumes "valid_constants c" "0 < z" "0 < T" "0 < p"
  shows "get_air_pressure c p T z 0 < p"
proof -
  have "0 < \<bar>g c\<bar>" "0 < r_dry c" using assms(1) by (simp_all add: valid_constants_def)
  then have "0 < z * \<bar>g c\<bar> / (r_dry c * T)"
    using assms(2,3) by (intro divide_pos_pos mult_pos_pos)
  moreover have "- (z - 0) * \<bar>g c\<bar> / (r_dry c * T) = - (z * \<bar>g c\<bar> / (r_dry c * T))"
    by simp
  ultimately have "exp (- (z - 0) * \<bar>g c\<bar> / (r_dry c * T)) < 1"
    by (simp only: exp_less_one_iff neg_less_0_iff_less)
  then have "p * exp (- (z - 0) * \<bar>g c\<bar> / (r_dry c * T)) < p * 1"
    using assms(4) by (intro mult_strict_left_mono)
  then show ?thesis by (simp add: get_air_pressure_def)
qed

lemma extrapolate_air_pressure_column:
  assumes "j < length (t_columns temperature)" "t_columns temperature ! j = (z, col)"
  shows "t_columns (extrapolate_air_pressure c sp temperature) ! j =
     (z, map2 (\<lambda>p T. get_air_pressure c p T z 0) (s_values sp) col)"
  using assms by (simp add: extrapolate_air_pressure_def)

text \<open>
  C8. The extrapolated pressure table keeps the temperature table's index and has one
  column per height level, with the same labels; where the temperatures of a column are
  positive, the column at level 0 is the surface pressure itself, and at a level above 0
  every entry is strictly less than the surface pressure of its row where that is positive.
\<close>
theorem extrapolate_air_pressure_levels:
  assumes vc: "valid_constants c"
    and j: "j < length (t_columns temperature)" and col: "t_columns temperature ! j = (z, col)"
    and pos: "\<forall>T \<in> set col. 0 < T"
  shows "t_index (extrapolate_air_pressure c sp temperature) = t_index temperature
     \<and> map fst (t_columns (extrapolate_air_pressure c sp temperature)) = map fst (t_columns temperature)
     \<and> fst (t_columns (extrapolate_air_pressure c sp temperature) ! j) = z
     \<and> (z = 0 \<and> length col = length (s_values sp) \<longrightarrow>
          snd (t_columns (extrapolate_air_pressure c sp temperature) ! j) = s_values sp)
     \<and> (0 < z \<longrightarrow>
          (\<forall>i. i < length col \<and> i < length (s_values sp) \<and> 0 < s_values sp ! i \<longrightarrow>
             snd (t_columns (extrapolate_air_pressure c sp temperature) ! j) ! i < s_values sp ! i))"
proof -
  let ?E = "extrapolate_air_pressure c sp temperature"
  have out: "t_columns ?E ! j = (z, map2 (\<lambda>p T. get_air_pressure c p T z 0) (s_values sp) col)"
    by (rule extrapolate_air_pressure_column [OF j col])
  have idx: "t_index ?E = t_index temperature" by (simp add: extrapolate_air_pressure_def)
  have labels: "map fst (t_columns ?E) = map fst (t_columns temperature)"
    by (simp add: extrapolate_air_pressure_def split_def)
  have ref: "snd (t_columns ?E ! j) = s_values sp" if "z = 0" "length col = length (s_values sp)"
  proof (rule nth_equalityI)
    show "length (snd (t_columns ?E ! j)) = length (s_values sp)" using that by (simp add: out)
    fix i assume "i < length (snd (t_columns ?E ! j))"
    then show "snd (t_columns ?E ! j) ! i = s_values sp ! i"
      using that by (simp add: out get_air_pressure_reference)
  qed
  have less: "snd (t_columns ?E ! j) ! i < s_values sp ! i"
    if "0 < z" "i < length col" "i < length (s_values sp)" "0 < s_values sp ! i" for i
  proof -
    have "0 < col ! i" using pos that(2) by simp
    then have "get_air_pressure c (s_values sp ! i) (col ! i) z 0 < s_values sp ! i"
      using vc that by (intro get_air_pressure_less)
    then show ?thesis using that by (simp add: out)
  qed
  show ?thesis
    apply (intro conjI allI impI)
        apply (rule idx)
       apply (rule labels)
      apply (simp add: out)
     apply (erule conjE)
     apply (erule (1) ref)
    apply (elim conjE)
    apply (erule (3) less)
    done
qed

theorem extrapolate_air_pressure_levels_witness:
  "valid_constants \<lparr>r_dry = 287, r_vapour = 461.5, g = - 9.81, cp = 1004, ref_pressure = 100000\<rparr>
   \<and> (0 :: real) < 290 \<and> (0 :: real) < 291 \<and> (0 :: real) < 289
   \<and> snd (t_columns (extrapolate_air_pressure
           \<lparr>r_dry = 287, r_vapour = 461.5, g = - 9.81, cp = 1004, ref_pressure = 100000\<rparr>
           \<lparr>s_index = [0, 1], s_values = [95000, 95100]\<rparr>
           \<lparr>t_index = [0, 1], t_columns = [(0, [290, 291]), (10, [289, 290])]\<rparr>) ! 0)
       = [95000, 95100]
   \<and> snd (t_columns (extrapolate_air_pressure
           \<lparr>r_dry = 287, r_vapour = 461.5, g = - 9.81, cp = 1004, ref_pressure = 100000\<rparr>
           \<lparr>s_index = [0, 1], s_values = [95000, 95100]\<rparr>
           \<lparr>t_index = [0, 1], t_columns = [(0, [290, 291]), (10, [289, 290])]\<rparr>) ! 1) ! 0
       < 95000"
proof -
  let ?c = "\<lparr>r_dry = 287, r_vapour = 461.5, g = - 9.81, cp = 1004, ref_pressure = 100000\<rparr>"
  let ?sp = "\<lparr>s_index = [0, 1], s_values = [95000, 95100]\<rparr>"
  let ?T = "\<lparr>t_index = [0, 1], t_columns = [(0, [290, 291]), (10, [289, 290])]\<rparr>"
  have vc: "valid_constants ?c" by (simp add: valid_constants_def)
  have j0: "0 < length (t_columns ?T)" and j1: "1 < length (t_columns ?T)" by simp_all
  have c0: "t_columns ?T ! 0 = (0, [290, 291])" and c1: "t_columns ?T ! 1 = (10, [289, 290])"
    by simp_all
  have p0: "\<forall>T \<in> set [290, 291 :: real]. 0 < T" and p1: "\<forall>T \<in> set [289, 290 :: real]. 0 < T"
    by simp_all
  have a: "snd (t_columns (extrapolate_air_pressure ?c ?sp ?T) ! 0) = [95000, 95100]"
    using extrapolate_air_pressure_levels [OF vc j0 c0 p0, of ?sp] by simp
  have "\<forall>i. i < length [289, 290 :: real] \<and> i < length (s_values ?sp) \<and> 0 < s_values ?sp ! i \<longrightarrow>
      snd (t_columns (extrapolate_air_pressure ?c ?sp ?T) ! 1) ! i < s_values ?sp ! i"
    using extrapolate_air_pressure_levels [OF vc j1 c1 p1, of ?sp] by simp
  from this [rule_format, of 0]
  have b: "snd (t_columns (extrapolate_air_pressure ?c ?sp ?T) ! 1) ! 0 < 95000"
    by simp
  show ?thesis using vc a b by simp
qed

text \<open>
  C9. The reduced pressure is stationPressure * exp(elevation / (alpha * virtualTemperature))
  with alpha = r_dry / |g|; with r_dry = 287 and g = -9.81, alpha is 287 / 9.81, within 0.01
  of 29.26 (and it stays within 0.01 of 29.26 for r_dry within 0.05 of 287); and at
  elevation 0 the reduced pressure is the station pressure, for every
  station pressure and every nonzero virtual temperature.
\<close>
theorem get_reduced_pressure_hypsometric:
  "get_reduced_pressure c p Tv elevation = p * exp (elevation / (r_dry c / \<bar>g c\<bar> * Tv))
   \<and> (r_dry c = 287 \<and> g c = - 9.81 \<longrightarrow> alpha c = 287 / 9.81 \<and> \<bar>alpha c - 29.26\<bar> < 0.01)
   \<and> (\<bar>r_dry c - 287\<bar> \<le> 0.05 \<and> g c = - 9.81 \<longrightarrow> \<bar>alpha c - 29.26\<bar> < 0.01)
   \<and> (valid_constants c \<and> Tv \<noteq> 0 \<longrightarrow> get_reduced_pressure c p Tv 0 = p)"
proof -
  have near: "\<bar>alpha c - 29.26\<bar> < 0.01"
    if r: "\<bar>r_dry c - 287\<bar> \<le> 0.05" and gv: "g c = - 9.81"
  proof -
    have a: "alpha c = r_dry c * (100 / 981)" using gv by (simp add: alpha_def)
    have "\<bar>r_dry c - 287\<bar> \<le> 1 / 20" using r by simp
    then have "5739 / 20 \<le> r_dry c" "r_dry c \<le> 5741 / 20" by linarith+
    then have "\<bar>r_dry c * (100 / 981) - 1463 / 50\<bar> < 1 / 100" by linarith
    then show ?thesis by (simp add: a)
  qed
  show ?thesis
    using near by (simp add: get_reduced_pressure_def alpha_def)
qed

theorem get_reduced_pressure_hypsometric_witness:
  "r_dry \<lparr>r_dry = 287, r_vapour = 461.5, g = - 9.81, cp = 1004, ref_pressure = 100000\<rparr> = 287
   \<and> g \<lparr>r_dry = 287, r_vapour = 461.5, g = - 9.81, cp = 1004, ref_pressure = 100000\<rparr> = - 9.81
   \<and> valid_constants \<lparr>r_dry = 287, r_vapour = 461.5, g = - 9.81, cp = 1004, ref_pressure = 100000\<rparr>
   \<and> (290 :: real) \<noteq> 0
   \<and> alpha \<lparr>r_dry = 287, r_vapour = 461.5, g = - 9.81, cp = 1004, ref_pressure = 100000\<rparr> = 287 / 9.81
   \<and> \<bar>alpha \<lparr>r_dry = 287, r_vapour = 461.5, g = - 9.81, cp = 1004, ref_pressure = 100000\<rparr> - 29.26\<bar> < 0.01
   \<and> get_reduced_pressure \<lparr>r_dry = 287, r_vapour = 461.5, g = - 9.81, cp = 1004, ref_pressure = 100000\<rparr>
         95000 290 0 = 95000"
proof -
  let ?c = "\<lparr>r_dry = 287, r_vapour = 461.5, g = - 9.81, cp = 1004, ref_pressure = 100000\<rparr>"
  have vc: "valid_constants ?c" by (simp add: valid_constants_def)
  have r: "r_dry ?c = 287" and gg: "g ?c = - 9.81" by simp_all
  have t: "(290 :: real) \<noteq> 0" by simp
  from get_reduced_pressure_hypsometric [of ?c 95000 290 0]
  have "alpha ?c = 287 / 9.81" "\<bar>alpha ?c - 29.26\<bar> < 0.01" "get_reduced_pressure ?c 95000 290 0 = 95000"
    using vc r gg t by blast+
  with vc r gg t show ?thesis by (intro conjI)
qed

end
